theory Spec2Isabelle
  imports Complex_Main
begin

section \<open>Python sequences\<close>

text \<open>
  A Python \<^verbatim>\<open>str\<close> is modelled as the list of its code points; \<^verbatim>\<open>len\<close> is
  \<^const>\<open>length\<close>. Python integers are unbounded and are modelled as \<^typ>\<open>int\<close>.
  A slice \<^verbatim>\<open>xs[i:j]\<close> clips both indices to the sequence, a negative index counting
  from the end.
\<close>

definition py_slice_index :: "nat \<Rightarrow> int \<Rightarrow> nat" where
  "py_slice_index n i = (if i < 0 then nat (max 0 (int n + i)) else min (nat i) n)"

definition py_slice :: "'a list \<Rightarrow> int \<Rightarrow> int \<Rightarrow> 'a list" where
  "py_slice xs i j =
     (let a = py_slice_index (length xs) i; b = py_slice_index (length xs) j
      in take (b - a) (drop a xs))"

section \<open>Chunker: \<^verbatim>\<open>GeminiExtractor._create_chunks\<close>\<close>

text \<open>
  The \<^verbatim>\<open>while\<close> loop of \<^verbatim>\<open>_create_chunks\<close>, with the loop variables \<^verbatim>\<open>start\<close>
  and \<^verbatim>\<open>chunks\<close> as arguments. The loop does not terminate for every pair of
  \<^verbatim>\<open>chunk_size\<close> and \<^verbatim>\<open>overlap\<close> (with \<^verbatim>\<open>overlap = chunk_size\<close> the
  variable \<^verbatim>\<open>start\<close> never moves), so not returning is the value \<^const>\<open>None\<close>.
\<close>

partial_function (option) create_chunks_loop ::
  "'a list \<Rightarrow> int \<Rightarrow> int \<Rightarrow> int \<Rightarrow> 'a list list \<Rightarrow> 'a list list option" where
  "create_chunks_loop text chunk_size overlap start chunks =
     (if start < int (length text) then
        (let end = start + chunk_size;
             chunk = py_slice text start end;
             chunks' = chunks @ [chunk]
         in if end \<ge> int (length text) then Some chunks'
            else create_chunks_loop text chunk_size overlap (end - overlap) chunks')
      else Some chunks)"

declare create_chunks_loop.simps [code]

definition create_chunks :: "'a list \<Rightarrow> int \<Rightarrow> int \<Rightarrow> 'a list list option" where
  "create_chunks text chunk_size overlap = create_chunks_loop text chunk_size overlap 0 []"

text \<open>
  Reassembly: the first chunk followed by every later chunk without its first \<open>k\<close>
  elements.
\<close>

fun strip_overlaps :: "nat \<Rightarrow> 'a list list \<Rightarrow> 'a list" where
  "strip_overlaps k [] = []"
| "strip_overlaps k (c # cs) = c @ concat (map (drop k) cs)"

section \<open>Python string operations\<close>

text \<open>
  The characters of this model are the code points below 256. \<^verbatim>\<open>str.isspace\<close> holds
  there for the code points 9 to 13, 28 to 32, 133 and 160; these are also the characters
  that \<^verbatim>\<open>\s\<close> matches in a \<^verbatim>\<open>str\<close> pattern.
\<close>

definition py_isspace :: "char \<Rightarrow> bool" where
  "py_isspace c =
     (let n = (of_char c :: nat)
      in (9 \<le> n \<and> n \<le> 13) \<or> (28 \<le> n \<and> n \<le> 32) \<or> n = 133 \<or> n = 160)"

definition py_isdigit :: "char \<Rightarrow> bool" where
  \<comment> \<open>\<^verbatim>\<open>\d\<close>: the decimal digits; below 256 these are \<^verbatim>\<open>0\<close> to \<^verbatim>\<open>9\<close>\<close>
  "py_isdigit c = (let n = (of_char c :: nat) in 48 \<le> n \<and> n \<le> 57)"

definition py_strip :: "string \<Rightarrow> string" where
  \<comment> \<open>\<^verbatim>\<open>s.strip()\<close>\<close>
  "py_strip s = rev (dropWhile py_isspace (rev (dropWhile py_isspace s)))"

definition py_lower_char :: "char \<Rightarrow> char" where
  "py_lower_char c =
     (let n = (of_char c :: nat)
      in if (65 \<le> n \<and> n \<le> 90) \<or> (192 \<le> n \<and> n \<le> 222 \<and> n \<noteq> 215)
         then char_of (n + 32) else c)"

definition py_upper_ascii :: "char \<Rightarrow> char" where
  "py_upper_ascii c =
     (let n = (of_char c :: nat) in if 97 \<le> n \<and> n \<le> 122 then char_of (n - 32) else c)"

definition py_lower :: "string \<Rightarrow> string" where
  \<comment> \<open>\<^verbatim>\<open>s.lower()\<close>\<close>
  "py_lower s = map py_lower_char s"

definition py_replace_char :: "char \<Rightarrow> string \<Rightarrow> string" where
  \<comment> \<open>\<^verbatim>\<open>s.replace(c, '')\<close> for a single character \<open>c\<close>\<close>
  "py_replace_char c s = filter (\<lambda>x. x \<noteq> c) s"

fun py_join :: "string \<Rightarrow> string list \<Rightarrow> string" where
  \<comment> \<open>\<^verbatim>\<open>sep.join(items)\<close>\<close>
  "py_join sep [] = []"
| "py_join sep [x] = x"
| "py_join sep (x # y # ys) = x @ sep @ py_join sep (y # ys)"

fun split_chars :: "(char \<Rightarrow> bool) \<Rightarrow> string \<Rightarrow> string list" where
  \<comment> \<open>\<^verbatim>\<open>re.split\<close> on a class of single characters: the pieces between separators,
     empty pieces included\<close>
  "split_chars P [] = [[]]"
| "split_chars P (c # cs) =
     (if P c then [] # split_chars P cs
      else (case split_chars P cs of
              [] \<Rightarrow> [[c]]
            | piece # pieces \<Rightarrow> (c # piece) # pieces))"

section \<open>Regular expressions\<close>

text \<open>
  The patterns of the program use literals, the classes \<^verbatim>\<open>\d\<close>, \<^verbatim>\<open>\s\<close>,
  \<^verbatim>\<open>.\<close> (under \<^verbatim>\<open>re.DOTALL\<close>) and a range, sequence, alternation, the greedy
  \<^verbatim>\<open>*\<close> and \<^verbatim>\<open>?\<close> and the lazy \<^verbatim>\<open>*?\<close>. Groups only capture and are not part
  of the syntax tree.
\<close>

datatype regex =
    Lit char
  | Digit
  | Space
  | AnyChar
  | Range char char
  | Eps
  | Seq regex regex
  | Alt regex regex
  | Opt regex
  | Star regex
  | StarLazy regex

definition char_matches :: "bool \<Rightarrow> regex \<Rightarrow> char \<Rightarrow> bool" where
  \<comment> \<open>one character against a one-character pattern; the flag is \<^verbatim>\<open>re.IGNORECASE\<close>\<close>
  "char_matches ic r x =
     (case r of
        Lit c \<Rightarrow> x = c \<or> (ic \<and> py_lower_char x = py_lower_char c)
      | Digit \<Rightarrow> py_isdigit x
      | Space \<Rightarrow> py_isspace x
      | AnyChar \<Rightarrow> True
      | Range lo hi \<Rightarrow>
          (let inside = (\<lambda>y. (of_char lo :: nat) \<le> of_char y \<and> (of_char y :: nat) \<le> of_char hi)
           in inside x \<or> (ic \<and> (inside (py_lower_char x) \<or> inside (py_upper_ascii x))))
      | _ \<Rightarrow> False)"

text \<open>
  \<open>rmatch ic r s\<close> lists what is left of \<open>s\<close> after each way of matching \<open>r\<close> at the
  start of \<open>s\<close>, in the order in which a backtracking matcher tries them: a greedy
  operator tries the longer match first, a lazy one the shorter. The first element is the
  match the matcher reports when nothing follows the pattern.
\<close>

function rmatch :: "bool \<Rightarrow> regex \<Rightarrow> string \<Rightarrow> string list" where
  "rmatch ic (Lit c) s =
     (case s of [] \<Rightarrow> [] | x # xs \<Rightarrow> if char_matches ic (Lit c) x then [xs] else [])"
| "rmatch ic Digit s =
     (case s of [] \<Rightarrow> [] | x # xs \<Rightarrow> if char_matches ic Digit x then [xs] else [])"
| "rmatch ic Space s =
     (case s of [] \<Rightarrow> [] | x # xs \<Rightarrow> if char_matches ic Space x then [xs] else [])"
| "rmatch ic AnyChar s =
     (case s of [] \<Rightarrow> [] | x # xs \<Rightarrow> if char_matches ic AnyChar x then [xs] else [])"
| "rmatch ic (Range lo hi) s =
     (case s of [] \<Rightarrow> [] | x # xs \<Rightarrow> if char_matches ic (Range lo hi) x then [xs] else [])"
| "rmatch ic Eps s = [s]"
| "rmatch ic (Seq r1 r2) s = concat (map (rmatch ic r2) (rmatch ic r1 s))"
| "rmatch ic (Alt r1 r2) s = rmatch ic r1 s @ rmatch ic r2 s"
| "rmatch ic (Opt r) s = rmatch ic r s @ [s]"
| "rmatch ic (Star r) s =
     concat (map (\<lambda>s'. if length s' < length s then rmatch ic (Star r) s' else [])
                 (rmatch ic r s)) @ [s]"
| "rmatch ic (StarLazy r) s =
     s # concat (map (\<lambda>s'. if length s' < length s then rmatch ic (StarLazy r) s' else [])
                     (rmatch ic r s))"
  by pat_completeness auto
termination
  by (relation "measures [\<lambda>(ic, r, s). size r, \<lambda>(ic, r, s). length s]") auto

fun re_search :: "bool \<Rightarrow> regex \<Rightarrow> string \<Rightarrow> string option" where
  \<comment> \<open>\<^verbatim>\<open>re.search(r, s).group(0)\<close>: the match at the leftmost position that has one\<close>
  "re_search ic r s =
     (case rmatch ic r s of
        rest # _ \<Rightarrow> Some (take (length s - length rest) s)
      | [] \<Rightarrow> (case s of [] \<Rightarrow> None | _ # s' \<Rightarrow> re_search ic r s'))"

definition match_group :: "bool \<Rightarrow> regex \<Rightarrow> regex \<Rightarrow> regex \<Rightarrow> string \<Rightarrow> string list" where
  \<comment> \<open>a pattern \<open>pre (grp) post\<close> at the start of \<open>s\<close>: the texts of the group, in
     backtracking order\<close>
  "match_group ic pre grp post s =
     concat (map (\<lambda>s1. concat (map (\<lambda>s2. if rmatch ic post s2 = [] then []
                                              else [take (length s1 - length s2) s1])
                                    (rmatch ic grp s1)))
                 (rmatch ic pre s))"

fun re_search_group :: "bool \<Rightarrow> regex \<Rightarrow> regex \<Rightarrow> regex \<Rightarrow> string \<Rightarrow> string option" where
  \<comment> \<open>\<^verbatim>\<open>re.search(pre (grp) post, s).group(1)\<close>\<close>
  "re_search_group ic pre grp post s =
     (case match_group ic pre grp post s of
        g # _ \<Rightarrow> Some g
      | [] \<Rightarrow> (case s of [] \<Rightarrow> None | _ # s' \<Rightarrow> re_search_group ic pre grp post s'))"

fun lits :: "string \<Rightarrow> regex" where
  \<comment> \<open>a literal word\<close>
  "lits [] = Eps"
| "lits [c] = Lit c"
| "lits (c # cs) = Seq (Lit c) (lits cs)"

fun alts :: "regex list \<Rightarrow> regex" where
  \<comment> \<open>\<^verbatim>\<open>r1|r2|...\<close>\<close>
  "alts [] = Eps"
| "alts [r] = r"
| "alts (r # rs) = Alt r (alts rs)"

fun seqs :: "regex list \<Rightarrow> regex" where
  "seqs [] = Eps"
| "seqs [r] = r"
| "seqs (r # rs) = Seq r (seqs rs)"

definition Plus :: "regex \<Rightarrow> regex" where
  \<comment> \<open>\<^verbatim>\<open>r+\<close>\<close>
  "Plus r = Seq r (Star r)"

section \<open>Field normalizer: \<^verbatim>\<open>GeminiExtractor._normalize_value\<close>\<close>

text \<open>The values of the enumeration \<^verbatim>\<open>FieldType\<close> (\<^verbatim>\<open>app/models\<close>).\<close>

definition FieldType_TEXT :: string where "FieldType_TEXT = ''TEXT''"
definition FieldType_DATE :: string where "FieldType_DATE = ''DATE''"
definition FieldType_NUMBER :: string where "FieldType_NUMBER = ''NUMBER''"
definition FieldType_BOOLEAN :: string where "FieldType_BOOLEAN = ''BOOLEAN''"
definition FieldType_LIST :: string where "FieldType_LIST = ''LIST''"

definition digits4 :: regex where
  "digits4 = seqs [Digit, Digit, Digit, Digit]"

definition digits2 :: regex where
  "digits2 = seqs [Digit, Digit]"

definition date_patterns :: "regex list" where
  \<comment> \<open>\<^verbatim>\<open>(\d{4})-(\d{2})-(\d{2})\<close>, \<^verbatim>\<open>(\d{2})/(\d{2})/(\d{4})\<close> and
     \<^verbatim>\<open>(\d{1,2})\s+(Jan|Feb|Mar|Apr|May|Jun|Jul|Aug|Sep|Oct|Nov|Dec)[a-z]*\s+(\d{4})\<close>\<close>
  "date_patterns =
     [seqs [digits4, Lit CHR ''-'', digits2, Lit CHR ''-'', digits2],
      seqs [digits2, Lit CHR ''/'', digits2, Lit CHR ''/'', digits4],
      seqs [Digit, Opt Digit, Plus Space,
            alts (map lits [''Jan'', ''Feb'', ''Mar'', ''Apr'', ''May'', ''Jun'',
                            ''Jul'', ''Aug'', ''Sep'', ''Oct'', ''Nov'', ''Dec'']),
            Star (Range CHR ''a'' CHR ''z''), Plus Space, digits4]]"

definition number_pattern :: regex where
  \<comment> \<open>\<^verbatim>\<open>-?[\d,]+\.?\d*\<close>\<close>
  "number_pattern =
     seqs [Opt (Lit CHR ''-''), Plus (Alt Digit (Lit CHR '','')), Opt (Lit CHR ''.''), Star Digit]"

fun first_date_match :: "regex list \<Rightarrow> string \<Rightarrow> string option" where
  \<comment> \<open>the loop over \<^verbatim>\<open>date_patterns\<close>: the match of the first pattern that has one\<close>
  "first_date_match [] raw_value = None"
| "first_date_match (pattern # patterns) raw_value =
     (case re_search True pattern raw_value of
        Some m \<Rightarrow> Some m
      | None \<Rightarrow> first_date_match patterns raw_value)"

text \<open>
  The argument \<open>raw_value\<close> is a \<^verbatim>\<open>str\<close> or \<^verbatim>\<open>None\<close>, as the signature of the
  source says. None of the operations in the \<^verbatim>\<open>try\<close> block raises on a
  \<^verbatim>\<open>str\<close>, so the \<^verbatim>\<open>except\<close> branch (which returns the trimmed raw value) is
  never taken and the function has no error result.
\<close>

definition normalize_value :: "string option \<Rightarrow> string \<Rightarrow> string option \<Rightarrow> string option" where
  "normalize_value raw_value field_type normalization_strategy =
     (case raw_value of
        None \<Rightarrow> None
      | Some rv \<Rightarrow>
          if rv = ''null'' then None
          else
            (let raw_value = py_strip rv
             in if raw_value = [] then None
                else if field_type = FieldType_DATE then
                  (case first_date_match date_patterns raw_value of
                     Some m \<Rightarrow> Some m
                   | None \<Rightarrow> Some raw_value)
                else if field_type = FieldType_NUMBER then
                  (case re_search False number_pattern raw_value of
                     Some m \<Rightarrow> Some (py_replace_char CHR '','' m)
                   | None \<Rightarrow> Some raw_value)
                else if field_type = FieldType_BOOLEAN then
                  (let lower_val = py_lower raw_value
                   in if lower_val \<in> set [''yes'', ''true'', ''1'', ''y''] then Some ''true''
                      else if lower_val \<in> set [''no'', ''false'', ''0'', ''n''] then Some ''false''
                      else Some raw_value)
                else if field_type = FieldType_LIST then
                  (if CHR '','' \<in> set raw_value \<or> CHR '';'' \<in> set raw_value then
                     (let items = split_chars (\<lambda>c. c = CHR '','' \<or> c = CHR '';'') raw_value
                      in Some (py_join '', '' (map py_strip (filter (\<lambda>item. py_strip item \<noteq> []) items))))
                   else Some raw_value)
                else Some raw_value))"

section \<open>Decoded JSON values\<close>

text \<open>
  What \<^verbatim>\<open>json.loads\<close> returns: \<^verbatim>\<open>None\<close>, a \<^verbatim>\<open>bool\<close>, an \<^verbatim>\<open>int\<close>, a
  \<^verbatim>\<open>float\<close>, a \<^verbatim>\<open>str\<close>, a \<^verbatim>\<open>list\<close> or a \<^verbatim>\<open>dict\<close>. A finite float is
  modelled by the rational number it was written as: rounding to binary64 is not
  modelled. A \<^verbatim>\<open>dict\<close> is the list of its pairs in document order; where a key is
  repeated the decoder keeps the last value, and so does \<open>dict_get\<close>.
\<close>

datatype pyfloat = Fin rat | PosInf | NegInf | NaN

datatype json =
    JNull
  | JBool bool
  | JInt int
  | JFloat pyfloat
  | JStr string
  | JArr "json list"
  | JObj "(string \<times> json) list"

datatype exc =
    ValueError
  | TypeError
  | OverflowError
  | JSONDecodeError
  | LLMError
  | ExtractionError exc

definition dict_get :: "(string \<times> json) list \<Rightarrow> string \<Rightarrow> json option" where
  "dict_get kvs k = map_of (rev kvs) k"

fun py_truthy :: "json \<Rightarrow> bool" where
  \<comment> \<open>the truth value of a decoded value, as in \<^verbatim>\<open>if v:\<close>\<close>
  "py_truthy JNull = False"
| "py_truthy (JBool b) = b"
| "py_truthy (JInt i) = (i \<noteq> 0)"
| "py_truthy (JFloat f) = (f \<noteq> Fin 0)"
| "py_truthy (JStr s) = (s \<noteq> [])"
| "py_truthy (JArr xs) = (xs \<noteq> [])"
| "py_truthy (JObj kvs) = (kvs \<noteq> [])"

fun strip_prefix :: "string \<Rightarrow> string \<Rightarrow> string option" where
  "strip_prefix [] s = Some s"
| "strip_prefix (p # ps) [] = None"
| "strip_prefix (p # ps) (c # cs) = (if p = c then strip_prefix ps cs else None)"

fun py_contains :: "string \<Rightarrow> string \<Rightarrow> bool" where
  \<comment> \<open>\<^verbatim>\<open>p in s\<close> for two strings\<close>
  "py_contains p [] = (p = [])"
| "py_contains p (c # cs) = (strip_prefix p (c # cs) \<noteq> None \<or> py_contains p cs)"

definition digit_val :: "char \<Rightarrow> nat option" where
  "digit_val c =
     (let n = (of_char c :: nat) in if 48 \<le> n \<and> n \<le> 57 then Some (n - 48) else None)"

definition digits_value :: "nat list \<Rightarrow> nat" where
  "digits_value ds = foldl (\<lambda>acc d. 10 * acc + d) 0 ds"

fun take_digits :: "string \<Rightarrow> nat list \<times> string" where
  "take_digits [] = ([], [])"
| "take_digits (c # cs) =
     (case digit_val c of
        None \<Rightarrow> ([], c # cs)
      | Some d \<Rightarrow> (let (ds, rest) = take_digits cs in (d # ds, rest)))"

definition scale10 :: "rat \<Rightarrow> int \<Rightarrow> rat" where
  \<comment> \<open>\<open>m \<times> 10\<^sup>e\<close>\<close>
  "scale10 m e = (if e \<ge> 0 then m * 10 ^ nat e else m / 10 ^ nat (- e))"

subsection \<open>\<^verbatim>\<open>float(x)\<close>\<close>

text \<open>
  \<^verbatim>\<open>float\<close> of a \<^verbatim>\<open>str\<close>: surrounding whitespace is ignored; after an optional
  sign come \<^verbatim>\<open>inf\<close>, \<^verbatim>\<open>infinity\<close> or \<^verbatim>\<open>nan\<close> in any case, or a decimal numeral
  with an optional fraction and exponent, in which single underscores may separate
  digits. Anything else raises \<^verbatim>\<open>ValueError\<close> (\<^const>\<open>None\<close>).
\<close>

fun take_digitpart :: "string \<Rightarrow> nat list \<times> string" where
  "take_digitpart [] = ([], [])"
| "take_digitpart (c # cs) =
     (case digit_val c of
        None \<Rightarrow> ([], c # cs)
      | Some d \<Rightarrow>
          (case cs of
             u # c2 # cs2 \<Rightarrow>
               if u = CHR ''_'' \<and> digit_val c2 \<noteq> None
               then (let (ds, rest) = take_digitpart (c2 # cs2) in (d # ds, rest))
               else (let (ds, rest) = take_digitpart cs in (d # ds, rest))
           | _ \<Rightarrow> (let (ds, rest) = take_digitpart cs in (d # ds, rest))))"

definition take_sign :: "string \<Rightarrow> bool \<times> string" where
  \<comment> \<open>an optional sign; the flag says that it was \<^verbatim>\<open>-\<close>\<close>
  "take_sign s =
     (case s of
        c # r \<Rightarrow> if c = CHR ''-'' then (True, r) else if c = CHR ''+'' then (False, r) else (False, s)
      | [] \<Rightarrow> (False, s))"

definition float_of_str :: "string \<Rightarrow> pyfloat option" where
  "float_of_str s =
     (let (neg, body) = take_sign (py_strip s);
          word = py_lower body
      in if word = ''inf'' \<or> word = ''infinity'' then Some (if neg then NegInf else PosInf)
         else if word = ''nan'' then Some NaN
         else
           (let (ip, s1) = take_digitpart body;
                (fp, s2) = (case s1 of
                              c # r \<Rightarrow> if c = CHR ''.'' then take_digitpart r else ([], s1)
                            | [] \<Rightarrow> ([], s1));
                (ex, s3) = (case s2 of
                              c # r \<Rightarrow>
                                if c = CHR ''e'' \<or> c = CHR ''E'' then
                                  (let (eneg, r1) = take_sign r; (ed, r2) = take_digitpart r1
                                   in if ed = [] then (0, s2)
                                      else (if eneg then - int (digits_value ed)
                                            else int (digits_value ed), r2))
                                else (0, s2)
                            | [] \<Rightarrow> (0, s2));
                mant = (of_nat (digits_value (ip @ fp)) :: rat) / 10 ^ length fp
            in if (ip = [] \<and> fp = []) \<or> s3 \<noteq> [] then None
               else Some (Fin (scale10 (if neg then - mant else mant) ex))))"

definition float_max_int :: int where
  \<comment> \<open>the least integer that does not round to a finite binary64\<close>
  "float_max_int = 2 ^ 1024 - 2 ^ 970"

fun py_float :: "json \<Rightarrow> exc + pyfloat" where
  "py_float (JInt i) = (if \<bar>i\<bar> \<ge> float_max_int then Inl OverflowError else Inr (Fin (of_int i)))"
| "py_float (JFloat f) = Inr f"
| "py_float (JBool b) = Inr (Fin (if b then 1 else 0))"
| "py_float (JStr s) = (case float_of_str s of None \<Rightarrow> Inl ValueError | Some f \<Rightarrow> Inr f)"
| "py_float JNull = Inl TypeError"
| "py_float (JArr xs) = Inl TypeError"
| "py_float (JObj kvs) = Inl TypeError"

definition clamp01 :: "pyfloat \<Rightarrow> rat" where
  \<comment> \<open>\<^verbatim>\<open>min(1.0, max(0.0, f))\<close>; \<^verbatim>\<open>max(0.0, nan)\<close> is \<^verbatim>\<open>0.0\<close>, since no
     comparison with \<^verbatim>\<open>nan\<close> holds\<close>
  "clamp01 f =
     (case f of
        Fin q \<Rightarrow> (let m = (if q > 0 then q else 0) in if m < 1 then m else 1)
      | PosInf \<Rightarrow> 1
      | NegInf \<Rightarrow> 0
      | NaN \<Rightarrow> 0)"

subsection \<open>\<^verbatim>\<open>str(x)\<close>\<close>

fun show_nat :: "nat \<Rightarrow> string" where
  "show_nat n = (if n < 10 then [char_of (48 + n)] else show_nat (n div 10) @ [char_of (48 + n mod 10)])"

definition show_int :: "int \<Rightarrow> string" where
  "show_int i = (if i < 0 then CHR ''-'' # show_nat (nat (- i)) else show_nat (nat i))"

text \<open>
  \<^verbatim>\<open>str\<close> of a decoded value. The text that Python prints for a float, a list or a
  dict is not modelled: the function is left unspecified there, and nothing proved below
  depends on it.
\<close>

fun py_str :: "json \<Rightarrow> string" where
  "py_str (JStr s) = s"
| "py_str (JInt i) = show_int i"
| "py_str (JBool b) = (if b then ''True'' else ''False'')"
| "py_str JNull = ''None''"

section \<open>A JSON decoder\<close>

text \<open>
  \<^verbatim>\<open>json.loads\<close> belongs to the Python library, not to the program. The functions of
  the program that call it take the decoder as an argument \<open>loads\<close>, with
  \<^const>\<open>None\<close> for a \<^verbatim>\<open>JSONDecodeError\<close>, and what is proved about them holds for
  every decoder. The decoder below follows the grammar that \<^verbatim>\<open>json.loads\<close> accepts
  (RFC 8259 and the three literals \<^verbatim>\<open>NaN\<close>, \<^verbatim>\<open>Infinity\<close>, \<^verbatim>\<open>-Infinity\<close>) and is
  used to run the program on concrete responses. An escape \<^verbatim>\<open>\uXXXX\<close> of a code point
  from 256 on has no character in this model and is rejected.
\<close>

definition json_ws :: "char \<Rightarrow> bool" where
  "json_ws c = (c = CHR '' '' \<or> c = CHR 0x09 \<or> c = CHR 0x0A \<or> c = CHR 0x0D)"

definition skip_ws :: "string \<Rightarrow> string" where
  "skip_ws s = dropWhile json_ws s"

definition hex_val :: "char \<Rightarrow> nat option" where
  "hex_val c =
     (let n = (of_char c :: nat)
      in if 48 \<le> n \<and> n \<le> 57 then Some (n - 48)
         else if 65 \<le> n \<and> n \<le> 70 then Some (n - 55)
         else if 97 \<le> n \<and> n \<le> 102 then Some (n - 87)
         else None)"

definition hex4 :: "char \<Rightarrow> char \<Rightarrow> char \<Rightarrow> char \<Rightarrow> char option" where
  "hex4 a b c d =
     (case (hex_val a, hex_val b, hex_val c, hex_val d) of
        (Some x, Some y, Some z, Some w) \<Rightarrow>
          (let n = ((x * 16 + y) * 16 + z) * 16 + w in if n < 256 then Some (char_of n) else None)
      | _ \<Rightarrow> None)"

definition simple_escape :: "char \<Rightarrow> char option" where
  "simple_escape e =
     (if e = CHR 0x22 then Some (CHR 0x22)
      else if e = CHR 0x5C then Some (CHR 0x5C)
      else if e = CHR ''/'' then Some (CHR ''/'')
      else if e = CHR ''b'' then Some (CHR 0x08)
      else if e = CHR ''f'' then Some (CHR 0x0C)
      else if e = CHR ''n'' then Some (CHR 0x0A)
      else if e = CHR ''r'' then Some (CHR 0x0D)
      else if e = CHR ''t'' then Some (CHR 0x09)
      else None)"

fun decode_chars :: "string \<Rightarrow> (string \<times> string) option" where
  \<comment> \<open>the characters of a string after its opening quote, and what follows the closing quote\<close>
  "decode_chars [] = None"
| "decode_chars (c # cs) =
     (if c = CHR 0x22 then Some ([], cs)
      else if c = CHR 0x5C then
        (case cs of
           [] \<Rightarrow> None
         | e # r \<Rightarrow>
             if e = CHR ''u'' then
               (case r of
                  a # b # c' # d # r' \<Rightarrow>
                    (case hex4 a b c' d of
                       None \<Rightarrow> None
                     | Some x \<Rightarrow> map_option (\<lambda>(t, rest). (x # t, rest)) (decode_chars r'))
                | _ \<Rightarrow> None)
             else
               (case simple_escape e of
                  None \<Rightarrow> None
                | Some x \<Rightarrow> map_option (\<lambda>(t, rest). (x # t, rest)) (decode_chars r)))
      else if (of_char c :: nat) < 32 then None
      else map_option (\<lambda>(t, rest). (c # t, rest)) (decode_chars cs))"

definition decode_number :: "string \<Rightarrow> (json \<times> string) option" where
  \<comment> \<open>\<^verbatim>\<open>-?(0|[1-9]\d*)(\.\d+)?([eE][-+]?\d+)?\<close>: an \<^verbatim>\<open>int\<close> without fraction and
     exponent, a \<^verbatim>\<open>float\<close> otherwise\<close>
  "decode_number s =
     (let (neg, s1) = (case s of
                         c # r \<Rightarrow> if c = CHR ''-'' then (True, r) else (False, s)
                       | [] \<Rightarrow> (False, s));
          (ip, s2) = (case s1 of
                        c # r \<Rightarrow> if c = CHR ''0'' then ([0], r) else take_digits s1
                      | [] \<Rightarrow> ([], s1))
      in if ip = [] then None
         else
           (let (fp, s3) = (case s2 of
                              c # r \<Rightarrow>
                                if c = CHR ''.'' \<and> fst (take_digits r) \<noteq> [] then take_digits r
                                else ([], s2)
                            | [] \<Rightarrow> ([], s2));
                (ex, s4) = (case s3 of
                              c # r \<Rightarrow>
                                if c = CHR ''e'' \<or> c = CHR ''E'' then
                                  (let (eneg, r1) = take_sign r; (ed, r2) = take_digits r1
                                   in if ed = [] then (None, s3)
                                      else (Some (if eneg then - int (digits_value ed)
                                                  else int (digits_value ed)), r2))
                                else (None, s3)
                            | [] \<Rightarrow> (None, s3));
                sgn = (if neg then (-1::int) else 1)
            in if fp = [] \<and> ex = None then Some (JInt (sgn * int (digits_value ip)), s4)
               else
                 (let mant = (of_int (sgn * int (digits_value (ip @ fp))) :: rat) / 10 ^ length fp
                  in Some (JFloat (Fin (scale10 mant (case ex of None \<Rightarrow> 0 | Some e \<Rightarrow> e))), s4))))"

text \<open>
  A value at the start of the input, and the rest of the input. The tests on lengths hold
  always (a value takes at least one character); they are what makes the recursion
  well-founded.
\<close>

fun decode_value :: "string \<Rightarrow> (json \<times> string) option"
and decode_elements :: "string \<Rightarrow> (json list \<times> string) option"
and decode_members :: "string \<Rightarrow> ((string \<times> json) list \<times> string) option" where
  "decode_value s =
     (case s of
        [] \<Rightarrow> None
      | c # r \<Rightarrow>
          if c = CHR ''['' then
            (case skip_ws r of
               [] \<Rightarrow> None
             | d # r' \<Rightarrow>
                 if d = CHR '']'' then Some (JArr [], r')
                 else if length (d # r') < length s then
                   map_option (\<lambda>(vs, rest). (JArr vs, rest)) (decode_elements (d # r'))
                 else None)
          else if c = CHR ''{'' then
            (case skip_ws r of
               [] \<Rightarrow> None
             | d # r' \<Rightarrow>
                 if d = CHR ''}'' then Some (JObj [], r')
                 else if length (d # r') < length s then
                   map_option (\<lambda>(kvs, rest). (JObj kvs, rest)) (decode_members (d # r'))
                 else None)
          else if c = CHR 0x22 then map_option (\<lambda>(t, rest). (JStr t, rest)) (decode_chars r)
          else (case strip_prefix ''null'' s of Some rest \<Rightarrow> Some (JNull, rest) | None \<Rightarrow>
               (case strip_prefix ''true'' s of Some rest \<Rightarrow> Some (JBool True, rest) | None \<Rightarrow>
               (case strip_prefix ''false'' s of Some rest \<Rightarrow> Some (JBool False, rest) | None \<Rightarrow>
               (case strip_prefix ''NaN'' s of Some rest \<Rightarrow> Some (JFloat NaN, rest) | None \<Rightarrow>
               (case strip_prefix ''Infinity'' s of Some rest \<Rightarrow> Some (JFloat PosInf, rest) | None \<Rightarrow>
               (case strip_prefix ''-Infinity'' s of Some rest \<Rightarrow> Some (JFloat NegInf, rest) | None \<Rightarrow>
                decode_number s)))))))"
| "decode_elements s =
     (case decode_value s of
        None \<Rightarrow> None
      | Some (v, r) \<Rightarrow>
          (case skip_ws r of
             [] \<Rightarrow> None
           | d # r' \<Rightarrow>
               if d = CHR '']'' then Some ([v], r')
               else if d = CHR '','' \<and> length (skip_ws r') < length s then
                 map_option (\<lambda>(vs, rest). (v # vs, rest)) (decode_elements (skip_ws r'))
               else None))"
| "decode_members s =
     (case s of
        [] \<Rightarrow> None
      | q # r0 \<Rightarrow>
          if q \<noteq> CHR 0x22 then None
          else
            (case decode_chars r0 of
               None \<Rightarrow> None
             | Some (k, r1) \<Rightarrow>
                 (case skip_ws r1 of
                    [] \<Rightarrow> None
                  | cl # r2 \<Rightarrow>
                      if cl \<noteq> CHR '':'' \<or> \<not> length (skip_ws r2) < length s then None
                      else
                        (case decode_value (skip_ws r2) of
                           None \<Rightarrow> None
                         | Some (v, r3) \<Rightarrow>
                             (case skip_ws r3 of
                                [] \<Rightarrow> None
                              | d # r4 \<Rightarrow>
                                  if d = CHR ''}'' then Some ([(k, v)], r4)
                                  else if d = CHR '','' \<and> length (skip_ws r4) < length s then
                                    map_option (\<lambda>(kvs, rest). ((k, v) # kvs, rest))
                                      (decode_members (skip_ws r4))
                                  else None)))))"

definition json_decode :: "string \<Rightarrow> json option" where
  "json_decode s =
     (case decode_value (skip_ws s) of
        None \<Rightarrow> None
      | Some (v, rest) \<Rightarrow> if skip_ws rest = [] then Some v else None)"

section \<open>Extraction engine: \<^verbatim>\<open>GeminiExtractor\<close>\<close>

subsection \<open>Field definitions and field results\<close>

text \<open>
  A field definition is a dictionary written by \<^verbatim>\<open>FieldDefinition.model_dump()\<close>, which
  stores every key of the schema: an optional key that was not set holds \<^verbatim>\<open>None\<close>
  (\<^const>\<open>None\<close>, and \<^const>\<open>JNull\<close> for the validation rules). A field result is the
  dictionary that \<^verbatim>\<open>_parse_response\<close> builds. Both have the key \<^verbatim>\<open>field_id\<close>.
\<close>

record keyed =
  field_id :: string

record field_def = keyed +
  field_name :: string
  field_type :: string
  required :: bool
  validation_rules :: json
  normalization :: "string option"
  extraction_prompt :: "string option"

record field_result = keyed +
  raw_value :: json
  normalized_value :: "string option"
  confidence_score :: rat
  citations :: json

definition null_result :: "string \<Rightarrow> field_result" where
  \<comment> \<open>the result for a field without a value\<close>
  "null_result fid =
     \<lparr>field_id = fid, raw_value = JNull, normalized_value = None,
      confidence_score = 0, citations = JArr []\<rparr>"

subsection \<open>\<^verbatim>\<open>_parse_response\<close>\<close>

definition fenced_array :: "string \<Rightarrow> string option" where
  \<comment> \<open>\<^verbatim>\<open>re.search(r'```(?:json)?\s*(\[.*?\])\s*```', response_text, re.DOTALL)\<close>, group 1\<close>
  "fenced_array response_text =
     re_search_group False
       (seqs [lits ''```'', Opt (lits ''json''), Star Space])
       (seqs [Lit CHR ''['', StarLazy AnyChar, Lit CHR '']''])
       (seqs [Star Space, lits ''```''])
       response_text"

definition bare_array :: "string \<Rightarrow> string option" where
  \<comment> \<open>\<^verbatim>\<open>re.search(r'(\[.*\])', response_text, re.DOTALL)\<close>, group 1\<close>
  "bare_array response_text =
     re_search False (seqs [Lit CHR ''['', Star AnyChar, Lit CHR '']'']) response_text"

definition locate_json :: "string \<Rightarrow> string option" where
  "locate_json response_text =
     (case fenced_array response_text of
        Some json_text \<Rightarrow> Some json_text
      | None \<Rightarrow> bare_array response_text)"

definition has_field_id :: "json \<Rightarrow> exc + bool" where
  \<comment> \<open>\<^verbatim>\<open>'field_id' in item\<close>: a key of a dict, a substring of a str, an element of a
     list; any other value is not iterable\<close>
  "has_field_id item =
     (case item of
        JObj kvs \<Rightarrow> Inr (dict_get kvs ''field_id'' \<noteq> None)
      | JStr s \<Rightarrow> Inr (py_contains ''field_id'' s)
      | JArr xs \<Rightarrow> Inr (JStr ''field_id'' \<in> set xs)
      | _ \<Rightarrow> Inl TypeError)"

definition raw_argument :: "json \<Rightarrow> string option" where
  \<comment> \<open>the raw value as the normalizer reads it: \<^verbatim>\<open>None\<close> stays, a \<^verbatim>\<open>str\<close> is itself,
     any other value goes through \<^verbatim>\<open>str(raw_value)\<close>\<close>
  "raw_argument v = (case v of JNull \<Rightarrow> None | JStr s \<Rightarrow> Some s | _ \<Rightarrow> Some (py_str v))"

definition process_item :: "field_def list \<Rightarrow> json \<Rightarrow> exc + field_result option" where
  \<comment> \<open>the body of the loop over the decoded items; \<^const>\<open>None\<close> is \<^verbatim>\<open>continue\<close>\<close>
  "process_item field_definitions item =
     (case has_field_id item of
        Inl e \<Rightarrow> Inl e
      | Inr present \<Rightarrow>
          if \<not> present then Inr None
          else
          (case item of
             JObj kvs \<Rightarrow>
               (case find (\<lambda>f. JStr (field_id f) = the (dict_get kvs ''field_id'')) field_definitions of
                  None \<Rightarrow> Inr None
                | Some field_def \<Rightarrow>
                    (let raw = (case dict_get kvs ''raw_value'' of None \<Rightarrow> JNull | Some v \<Rightarrow> v);
                         normalized = normalize_value (raw_argument raw) (field_type field_def)
                                        (normalization field_def)
                     in case py_float (case dict_get kvs ''confidence_score'' of
                                         None \<Rightarrow> JFloat (Fin (1 / 2)) | Some v \<Rightarrow> v) of
                          Inl e \<Rightarrow> Inl e
                        | Inr f \<Rightarrow>
                            Inr (Some \<lparr>field_id = field_id field_def,
                                       raw_value = raw,
                                       normalized_value = normalized,
                                       confidence_score = clamp01 f,
                                       citations = (case dict_get kvs ''citations'' of
                                                      None \<Rightarrow> JArr [] | Some v \<Rightarrow> v)\<rparr>)))
           | _ \<Rightarrow> Inl TypeError))"

fun validate_items :: "field_def list \<Rightarrow> json list \<Rightarrow> field_result list \<Rightarrow> exc + field_result list" where
  \<comment> \<open>the loop \<^verbatim>\<open>for item in extracted_data\<close>, with \<^verbatim>\<open>validated_fields\<close> as accumulator\<close>
  "validate_items field_definitions [] validated_fields = Inr validated_fields"
| "validate_items field_definitions (item # items) validated_fields =
     (case process_item field_definitions item of
        Inl e \<Rightarrow> Inl e
      | Inr None \<Rightarrow> validate_items field_definitions items validated_fields
      | Inr (Some r) \<Rightarrow> validate_items field_definitions items (validated_fields @ [r]))"

fun fill_missing :: "field_def list \<Rightarrow> field_result list \<Rightarrow> field_result list" where
  \<comment> \<open>the loop that ensures all fields are present\<close>
  "fill_missing [] validated_fields = validated_fields"
| "fill_missing (field_def # field_definitions) validated_fields =
     fill_missing field_definitions
       (if list_ex (\<lambda>f. field_id f = field_id field_def) validated_fields then validated_fields
        else validated_fields @ [null_result (field_id field_def)])"

definition parse_response ::
  "(string \<Rightarrow> json option) \<Rightarrow> string \<Rightarrow> field_def list \<Rightarrow> exc + field_result list" where
  "parse_response loads response_text field_definitions =
     (case locate_json response_text of
        None \<Rightarrow> Inl (ExtractionError ValueError)
      | Some json_text \<Rightarrow>
          (case loads json_text of
             None \<Rightarrow> Inl (ExtractionError JSONDecodeError)
           | Some extracted_data \<Rightarrow>
               (case extracted_data of
                  JArr items \<Rightarrow>
                    (case validate_items field_definitions items [] of
                       Inl e \<Rightarrow> Inl (ExtractionError e)
                     | Inr validated_fields \<Rightarrow> Inr (fill_missing field_definitions validated_fields))
                | _ \<Rightarrow> Inl (ExtractionError ValueError))))"

subsection \<open>\<^verbatim>\<open>_merge_chunk_results\<close>\<close>

fun py_max_by :: "('a \<Rightarrow> rat) \<Rightarrow> 'a \<Rightarrow> 'a list \<Rightarrow> 'a" where
  \<comment> \<open>\<^verbatim>\<open>max(x :: xs, key=key)\<close>: a later element replaces the best one only when its key
     is greater\<close>
  "py_max_by key best [] = best"
| "py_max_by key best (x # xs) = py_max_by key (if key x > key best then x else best) xs"

definition field_extractions :: "field_result list list \<Rightarrow> string \<Rightarrow> field_result list" where
  \<comment> \<open>the inner loop: of each chunk the first result for the field, kept when its raw value
     is true in the sense of Python\<close>
  "field_extractions chunk_results fid =
     concat (map (\<lambda>chunk_result.
                    case find (\<lambda>f. field_id f = fid) chunk_result of
                      None \<Rightarrow> []
                    | Some field_data \<Rightarrow> if py_truthy (raw_value field_data) then [field_data] else [])
                 chunk_results)"

definition merge_field :: "field_result list list \<Rightarrow> field_def \<Rightarrow> field_result" where
  "merge_field chunk_results field_def =
     (case field_extractions chunk_results (field_id field_def) of
        [] \<Rightarrow> null_result (field_id field_def)
      | x # xs \<Rightarrow> py_max_by confidence_score x xs)"

definition merge_chunk_results :: "field_result list list \<Rightarrow> field_def list \<Rightarrow> field_result list" where
  "merge_chunk_results chunk_results field_definitions =
     map (merge_field chunk_results) field_definitions"

subsection \<open>Notions used to state the properties of \<^verbatim>\<open>_parse_response\<close>\<close>

definition decoded_items :: "(string \<Rightarrow> json option) \<Rightarrow> string \<Rightarrow> json list option" where
  \<comment> \<open>the items of the array decoded from the located text, if there is one\<close>
  "decoded_items loads response_text =
     (case locate_json response_text of
        None \<Rightarrow> None
      | Some json_text \<Rightarrow>
          (case loads json_text of Some (JArr items) \<Rightarrow> Some items | _ \<Rightarrow> None))"

definition item_field_id :: "json \<Rightarrow> json option" where
  \<comment> \<open>the \<^verbatim>\<open>field_id\<close> of an item that is an object with this key\<close>
  "item_field_id item = (case item of JObj kvs \<Rightarrow> dict_get kvs ''field_id'' | _ \<Rightarrow> None)"

definition known_ids :: "field_def list \<Rightarrow> json list \<Rightarrow> string list" where
  \<comment> \<open>the field ids of the items that name a field definition, in the order of the items\<close>
  "known_ids field_definitions items =
     concat (map (\<lambda>item. case item_field_id item of
                            Some (JStr s) \<Rightarrow> if s \<in> field_id ` set field_definitions then [s] else []
                          | _ \<Rightarrow> [])
                 items)"


definition text_field :: "string \<Rightarrow> field_def" where
  \<comment> \<open>a TEXT field definition with no optional key set\<close>
  "text_field fid =
     \<lparr>field_id = fid, field_name = fid, field_type = FieldType_TEXT, required = False,
      validation_rules = JNull, normalization = None, extraction_prompt = None\<rparr>"

subsection \<open>The merge as the specification words it\<close>

text \<open>
  The specification takes as candidates for a field all results of all chunks whose raw
  value is not null, and returns the first one of maximal confidence, or the null result
  when there is none. These two definitions follow those words, for comparison with
  \<^const>\<open>merge_chunk_results\<close>.
\<close>

definition nonnull_candidates :: "field_result list list \<Rightarrow> string \<Rightarrow> field_result list" where
  "nonnull_candidates chunk_results fid =
     filter (\<lambda>f. field_id f = fid \<and> raw_value f \<noteq> JNull) (concat chunk_results)"

definition merge_as_specified :: "field_result list list \<Rightarrow> field_def list \<Rightarrow> field_result list" where
  "merge_as_specified chunk_results field_definitions =
     map (\<lambda>field_def.
            let cands = nonnull_candidates chunk_results (field_id field_def)
            in case find (\<lambda>c. list_all (\<lambda>c'. confidence_score c' \<le> confidence_score c) cands) cands of
                 None \<Rightarrow> null_result (field_id field_def)
               | Some best \<Rightarrow> best)
         field_definitions"

subsection \<open>The model call and \<^verbatim>\<open>_build_extraction_prompt\<close>\<close>

text \<open>
  What the engine takes from outside: the language model (\<^verbatim>\<open>self.llm.invoke\<close>, which
  returns a text or raises, and whose answers may depend on a state \<open>'s\<close> of its own) and
  the functions \<^verbatim>\<open>json.loads\<close>, \<^verbatim>\<open>json.dumps\<close> and \<^verbatim>\<open>json.dumps\<close> with
  \<^verbatim>\<open>indent=2\<close> of the Python library.
\<close>

record 's py_env =
  llm_invoke :: "'s \<Rightarrow> string \<Rightarrow> (exc + string) \<times> 's"
  json_loads :: "string \<Rightarrow> json option"
  json_dumps :: "json \<Rightarrow> string"
  json_dumps_indent2 :: "json \<Rightarrow> string"

definition nl :: string where
  "nl = [CHR 0x0A]"

definition field_description :: "'s py_env \<Rightarrow> field_def \<Rightarrow> string" where
  \<comment> \<open>\<^verbatim>\<open>field_desc.strip()\<close>; a key that holds \<^verbatim>\<open>None\<close> is printed as \<^verbatim>\<open>None\<close>\<close>
  "field_description env field =
     py_strip (concat
       [nl,
        ''- **'', field_name field, ''** (ID: `'', field_id field, ''`)'', nl,
        ''  - Type: '', field_type field, nl,
        ''  - Required: '', (if required field then ''Yes'' else ''No''), nl,
        ''  - Description: '', (case extraction_prompt field of None \<Rightarrow> ''None'' | Some p \<Rightarrow> p), nl,
        ''  - Validation: '', json_dumps env (validation_rules field), nl])"

definition output_example :: "field_def list \<Rightarrow> json" where
  "output_example field_definitions =
     JArr (map (\<lambda>field.
                  JObj [(''field_id'', JStr (field_id field)),
                        (''raw_value'', JStr ''<extracted value>''),
                        (''confidence_score'', JFloat (Fin (95 / 100))),
                        (''citations'',
                           JArr [JObj [(''source'', JStr ''page 1, section 2''),
                                       (''text_snippet'', JStr ''<relevant text snippet>'')]])])
               (take 2 field_definitions))"

definition prompt_head :: "'s py_env \<Rightarrow> field_def list \<Rightarrow> string" where
  \<comment> \<open>the prompt up to the document text\<close>
  "prompt_head env field_definitions =
     concat
       [''You are a legal document analysis AI specialized in extracting structured information from legal documents.'', nl,
        nl,
        ''**TASK**: Extract the following fields from the provided document:'', nl,
        nl,
        py_join nl (map (field_description env) field_definitions), nl,
        nl,
        ''**DOCUMENT TEXT**:'', nl,
        ''```'', nl]"

definition prompt_tail :: "'s py_env \<Rightarrow> field_def list \<Rightarrow> string" where
  \<comment> \<open>the prompt after the document text\<close>
  \<open>prompt_tail env field_definitions =
     concat
       [''  '', nl,
        ''```'', nl,
        nl,
        ''**EXTRACTION INSTRUCTIONS**:'', nl,
        ''1. For each field, extract the most relevant value from the document'', nl,
        ''2. If a field value is not found, set raw_value to null'', nl,
        ''3. Provide a confidence score (0.0 to 1.0) for each extraction'', nl,
        ''4. Include citations showing where in the document you found the information'', nl,
        ''5. For DATE fields, normalize to YYYY-MM-DD format'', nl,
        ''6. For NUMBER fields, extract numeric values only'', nl,
        ''7. For BOOLEAN fields, return "true" or "false"'', nl,
        ''8. For LIST fields, return comma-separated values'', nl,
        nl,
        ''**OUTPUT FORMAT** (JSON array):'', nl,
        ''```json'', nl,
        json_dumps_indent2 env (output_example field_definitions), nl,
        ''```'', nl,
        nl,
        ''**IMPORTANT**:'', nl,
        ''- Return ONLY the JSON array, no additional text'', nl,
        ''- Include ALL fields from the list, even if value is null'', nl,
        ''- Be precise with citations - include page numbers or section references'', nl,
        ''- Confidence should reflect certainty of extraction'', nl,
        nl,
        ''**YOUR JSON OUTPUT**:'', nl,
        ''```json'', nl]\<close>

definition build_extraction_prompt :: "'s py_env \<Rightarrow> string \<Rightarrow> field_def list \<Rightarrow> string" where
  "build_extraction_prompt env document_text field_definitions =
     prompt_head env field_definitions
     @ py_slice document_text 0 30000
     @ prompt_tail env field_definitions"

subsection \<open>\<^verbatim>\<open>_extract_single\<close>, \<^verbatim>\<open>_extract_chunked\<close> and \<^verbatim>\<open>extract\<close>\<close>

definition extract_single ::
  "'s py_env \<Rightarrow> 's \<Rightarrow> string \<Rightarrow> field_def list \<Rightarrow> (exc + field_result list) \<times> 's" where
  "extract_single env s document_text field_definitions =
     (let prompt = build_extraction_prompt env document_text field_definitions;
          (response, s') = llm_invoke env s prompt
      in case response of
           Inl e \<Rightarrow> (Inl e, s')
         | Inr content \<Rightarrow> (parse_response (json_loads env) content field_definitions, s'))"

fun extract_chunks ::
  "'s py_env \<Rightarrow> 's \<Rightarrow> string list \<Rightarrow> field_def list \<Rightarrow> field_result list list
     \<Rightarrow> (exc + field_result list list) \<times> 's" where
  \<comment> \<open>the loop over the chunks, with \<^verbatim>\<open>all_extractions\<close> as accumulator\<close>
  "extract_chunks env s [] field_definitions all_extractions = (Inr all_extractions, s)"
| "extract_chunks env s (chunk # chunks) field_definitions all_extractions =
     (case extract_single env s chunk field_definitions of
        (Inl e, s') \<Rightarrow> (Inl e, s')
      | (Inr chunk_results, s') \<Rightarrow>
          extract_chunks env s' chunks field_definitions (all_extractions @ [chunk_results]))"

definition merged :: "field_def list \<Rightarrow> (exc + field_result list list) \<times> 's
     \<Rightarrow> (exc + field_result list) \<times> 's" where
  \<comment> \<open>the merge of the results of all chunks, when the loop has not raised\<close>
  "merged field_definitions r =
     (case r of
        (Inl e, s') \<Rightarrow> (Inl e, s')
      | (Inr all_extractions, s') \<Rightarrow> (Inr (merge_chunk_results all_extractions field_definitions), s'))"

definition extract_chunked ::
  "'s py_env \<Rightarrow> 's \<Rightarrow> string \<Rightarrow> field_def list \<Rightarrow> int
     \<Rightarrow> ((exc + field_result list) \<times> 's) option" where
  \<comment> \<open>\<^const>\<open>None\<close> when the chunker does not return\<close>
  "extract_chunked env s document_text field_definitions chunk_size =
     (case create_chunks document_text chunk_size 500 of
        None \<Rightarrow> None
      | Some chunks \<Rightarrow> Some (merged field_definitions (extract_chunks env s chunks field_definitions [])))"

definition wrap_error :: "(exc + 'a) \<times> 's \<Rightarrow> (exc + 'a) \<times> 's" where
  \<comment> \<open>\<^verbatim>\<open>except Exception as e: raise ExtractionError(...) from e\<close>\<close>
  "wrap_error r = (case r of (Inl e, s') \<Rightarrow> (Inl (ExtractionError e), s') | (Inr v, s') \<Rightarrow> (Inr v, s'))"

definition "extract" ::
  "'s py_env \<Rightarrow> 's \<Rightarrow> string \<Rightarrow> field_def list \<Rightarrow> int
     \<Rightarrow> ((exc + field_result list) \<times> 's) option" where
  "extract env s document_text field_definitions chunk_size =
     (if int (length document_text) > chunk_size then
        map_option wrap_error (extract_chunked env s document_text field_definitions chunk_size)
      else Some (wrap_error (extract_single env s document_text field_definitions)))"

section \<open>Properties of the chunker\<close>

lemma py_slice_nonneg:
  "0 \<le> i \<Longrightarrow> 0 \<le> k \<Longrightarrow> py_slice xs i (i + k) = take (nat k) (drop (nat i) xs)"
  unfolding py_slice_def py_slice_index_def Let_def
  by (auto simp: min_def nat_add_distrib)

lemma concat_drop_strip:
  "cs \<noteq> [] \<Longrightarrow> k \<le> length (hd cs) \<Longrightarrow>
   concat (map (drop k) cs) = drop k (strip_overlaps k cs)"
  by (cases cs) auto

text \<open>
  The loop started at any position \<open>start \<ge> 0\<close> returns, and what it appends to
  \<open>chunks\<close> covers the text from \<open>start\<close> on. The induction is on the number of
  characters left after \<open>start\<close>, which each iteration decreases by
  \<open>chunk_size - overlap > 0\<close>.
\<close>

lemma create_chunks_loop_correct:
  assumes ov: "0 \<le> overlap" "overlap < chunk_size" and st: "0 \<le> start"
  shows "\<exists>new. create_chunks_loop text chunk_size overlap start chunks = Some (chunks @ new)
      \<and> (new = [] \<longleftrightarrow> \<not> start < int (length text))
      \<and> (new \<noteq> [] \<longrightarrow> hd new = take (nat chunk_size) (drop (nat start) text))
      \<and> (\<forall>c\<in>set new. length c \<le> nat chunk_size \<and> (\<exists>a. c = take (nat chunk_size) (drop a text)))
      \<and> (\<forall>i. Suc i < length new \<longrightarrow> length (new ! i) = nat chunk_size)
      \<and> (\<forall>i. Suc i < length new \<longrightarrow> nat overlap < length (new ! Suc i) \<and>
             drop (nat chunk_size - nat overlap) (new ! i) = take (nat overlap) (new ! Suc i))
      \<and> strip_overlaps (nat overlap) new = drop (nat start) text"
  using st
proof (induction "length text - nat start" arbitrary: start chunks rule: less_induct)
  case less
  let ?n = "length text"
  let ?k = "nat chunk_size" and ?o = "nat overlap" and ?s = "nat start"
  let ?chunk = "take ?k (drop ?s text)"
  have sl: "py_slice text start (start + chunk_size) = ?chunk"
    using less.prems ov by (intro py_slice_nonneg) auto
  show ?case
  proof (cases "start < int ?n")
    case False
    then have "create_chunks_loop text chunk_size overlap start chunks = Some (chunks @ [])"
      by (subst create_chunks_loop.simps) simp
    moreover have "drop ?s text = []" using False less.prems by auto
    ultimately show ?thesis using False by (intro exI[of _ "[]"]) simp
  next
    case inside: True
    show ?thesis
    proof (cases "start + chunk_size \<ge> int ?n")
      case True
      have "create_chunks_loop text chunk_size overlap start chunks = Some (chunks @ [?chunk])"
        by (subst create_chunks_loop.simps) (simp add: inside True sl Let_def)
      moreover have "?chunk = drop ?s text" using True less.prems ov by auto
      moreover have "\<exists>a. ?chunk = take ?k (drop a text)" by blast
      ultimately show ?thesis using inside by (intro exI[of _ "[?chunk]"]) simp
    next
      case False
      let ?start' = "start + chunk_size - overlap"
      have s': "nat ?start' = ?s + ?k - ?o" "?o < ?k" "?s + ?k < ?n" "0 \<le> ?start'"
        using False less.prems ov by auto
      have dec: "?n - nat ?start' < ?n - ?s" unfolding s'(1) using s'(2,3) by arith
      from less.hyps[OF dec s'(4), of "chunks @ [?chunk]"]
      obtain new where new:
        "create_chunks_loop text chunk_size overlap ?start' (chunks @ [?chunk]) = Some ((chunks @ [?chunk]) @ new)"
        "new = [] \<longleftrightarrow> \<not> ?start' < int ?n"
        "new \<noteq> [] \<longrightarrow> hd new = take ?k (drop (nat ?start') text)"
        "\<forall>c\<in>set new. length c \<le> ?k \<and> (\<exists>a. c = take ?k (drop a text))"
        "\<forall>i. Suc i < length new \<longrightarrow> length (new ! i) = ?k"
        "\<forall>i. Suc i < length new \<longrightarrow> ?o < length (new ! Suc i) \<and>
             drop (?k - ?o) (new ! i) = take ?o (new ! Suc i)"
        "strip_overlaps ?o new = drop (nat ?start') text"
        by blast
      have ne: "new \<noteq> []" using new(2) False ov by auto
      then have hd: "hd new = take ?k (drop (?s + ?k - ?o) text)" using new(3) s'(1) by simp
      have hd0: "new ! 0 = hd new" using ne by (simp add: hd_conv_nth)
      have "length (hd new) = min (?n - (?s + ?k - ?o)) ?k" unfolding hd by simp
      moreover have "?o < ?n - (?s + ?k - ?o)" using s'(2,3) by linarith
      ultimately have lhd: "?o < length (hd new)" using s'(2) by simp
      have lch: "length ?chunk = ?k" using s'(3) by simp
      have a1: "?k - (?k - ?o) = ?o" and a2: "?k - ?o + ?s = ?s + ?k - ?o"
        and a3: "?o + (?s + ?k - ?o) = ?k + ?s" and a4: "min ?o ?k = ?o"
        using s'(2) by arith+
      have ovl: "drop (?k - ?o) ?chunk = take ?o (hd new)"
        unfolding hd by (simp only: drop_take drop_drop take_take a1 a2 a4)
      have run: "create_chunks_loop text chunk_size overlap start chunks = Some (chunks @ (?chunk # new))"
        by (subst create_chunks_loop.simps) (simp add: inside False sl Let_def new(1))
      have p4: "\<forall>i. Suc i < length (?chunk # new) \<longrightarrow> length ((?chunk # new) ! i) = ?k"
      proof (intro allI impI)
        fix i assume "Suc i < length (?chunk # new)"
        then show "length ((?chunk # new) ! i) = ?k"
          using new(5) lch by (cases i) auto
      qed
      have p5: "\<forall>i. Suc i < length (?chunk # new) \<longrightarrow> ?o < length ((?chunk # new) ! Suc i) \<and>
             drop (?k - ?o) ((?chunk # new) ! i) = take ?o ((?chunk # new) ! Suc i)"
      proof (intro allI impI)
        fix i assume "Suc i < length (?chunk # new)"
        then show "?o < length ((?chunk # new) ! Suc i) \<and>
             drop (?k - ?o) ((?chunk # new) ! i) = take ?o ((?chunk # new) ! Suc i)"
          using new(6) lhd ovl hd0 by (cases i) auto
      qed
      have p6: "strip_overlaps ?o (?chunk # new) = drop ?s text"
      proof -
        have "concat (map (drop ?o) new) = drop ?o (strip_overlaps ?o new)"
          using ne lhd by (intro concat_drop_strip) simp_all
        also have "\<dots> = drop ?k (drop ?s text)"
          by (simp only: new(7) s'(1) drop_drop a3)
        finally show ?thesis
          by (simp only: strip_overlaps.simps append_take_drop_id)
      qed
      have "\<exists>a. ?chunk = take ?k (drop a text)" by blast
      then have p3: "\<forall>c\<in>set (?chunk # new). length c \<le> ?k \<and> (\<exists>a. c = take ?k (drop a text))"
        using new(4) by simp
      show ?thesis
        using run inside p3 p4 p5 p6 by (intro exI[of _ "?chunk # new"]) simp
    qed
  qed
qed

text \<open>
  Claim C3. For every text and every pair with \<open>0 \<le> overlap < chunk_size\<close> the chunker
  returns a list of chunks: each is a substring of the text of length at most
  \<open>chunk_size\<close>; each chunk but the last has length exactly \<open>chunk_size\<close>; the last
  \<open>overlap\<close> characters of a chunk are the first \<open>overlap\<close> characters of the next one,
  which has at least that many; and the first chunk followed by the later chunks without
  their first \<open>overlap\<close> characters is the text.
\<close>

theorem create_chunks_spec:
  assumes "0 \<le> overlap" and "overlap < chunk_size"
  shows "\<exists>chunks. create_chunks text chunk_size overlap = Some chunks
      \<and> (\<forall>c\<in>set chunks. length c \<le> nat chunk_size \<and> (\<exists>a. c = take (nat chunk_size) (drop a text)))
      \<and> (\<forall>i. Suc i < length chunks \<longrightarrow> length (chunks ! i) = nat chunk_size)
      \<and> (\<forall>i. Suc i < length chunks \<longrightarrow> nat overlap \<le> length (chunks ! Suc i) \<and>
             drop (length (chunks ! i) - nat overlap) (chunks ! i) = take (nat overlap) (chunks ! Suc i))
      \<and> strip_overlaps (nat overlap) chunks = text"
proof -
  from create_chunks_loop_correct[OF assms, of 0 "text" "[]"]
  obtain new where new:
    "create_chunks_loop text chunk_size overlap 0 [] = Some new"
    "\<forall>c\<in>set new. length c \<le> nat chunk_size \<and> (\<exists>a. c = take (nat chunk_size) (drop a text))"
    "\<forall>i. Suc i < length new \<longrightarrow> length (new ! i) = nat chunk_size"
    "\<forall>i. Suc i < length new \<longrightarrow> nat overlap < length (new ! Suc i) \<and>
         drop (nat chunk_size - nat overlap) (new ! i) = take (nat overlap) (new ! Suc i)"
    "strip_overlaps (nat overlap) new = text"
    by auto
  have "\<forall>i. Suc i < length new \<longrightarrow> nat overlap \<le> length (new ! Suc i) \<and>
         drop (length (new ! i) - nat overlap) (new ! i) = take (nat overlap) (new ! Suc i)"
    using new(3,4) by (simp add: less_imp_le)
  with new(1,2,3,5) show ?thesis
    unfolding create_chunks_def by blast
qed

theorem create_chunks_spec_witness:
  "create_chunks ''abcdefghij'' 4 1 = Some [''abcd'', ''defg'', ''ghij'']
   \<and> strip_overlaps 1 [''abcd'', ''defg'', ''ghij''] = ''abcdefghij''"
proof -
  have run: "create_chunks ''abcdefghij'' 4 1 = Some [''abcd'', ''defg'', ''ghij'']"
    by code_simp
  from create_chunks_spec[of 1 4 "''abcdefghij''"]
  obtain chunks where "create_chunks ''abcdefghij'' 4 1 = Some chunks"
    and "strip_overlaps (nat 1) chunks = ''abcdefghij''"
    by auto
  with run show ?thesis by simp
qed

section \<open>Properties of the field normalizer\<close>

lemma py_strip_Nil: "py_strip [] = []"
  by (simp add: py_strip_def)

text \<open>
  Claim C4. The normalizer returns a value for every raw value and every type tag (it is a
  function into \<^typ>\<open>string option\<close>, and the source has no path that raises). For
  every type tag, known or not, \<^verbatim>\<open>None\<close> and the empty string normalize to
  \<^verbatim>\<open>None\<close>, and so does every raw value that is empty after trimming.
\<close>

theorem normalize_value_null_empty:
  "normalize_value None ftype strategy = None
   \<and> normalize_value (Some '''') ftype strategy = None
   \<and> (py_strip raw = [] \<longrightarrow> normalize_value (Some raw) ftype strategy = None)"
  by (simp add: normalize_value_def py_strip_Nil Let_def)

theorem normalize_value_null_empty_witness:
  "py_strip ''   '' = [] \<and> normalize_value (Some ''   '') ''LIST'' None = None
   \<and> normalize_value (Some '''') ''no such type'' None = None"
proof -
  have blank: "py_strip ''   '' = []"
    by code_simp
  from normalize_value_null_empty[of "''LIST''" None "''   ''"] blank
  have "normalize_value (Some ''   '') ''LIST'' None = None"
    by blast
  moreover from normalize_value_null_empty[of "''no such type''" None "[]"]
  have "normalize_value (Some '''') ''no such type'' None = None"
    by blast
  ultimately show ?thesis using blank by blast
qed

text \<open>
  Claim C9 says that the DATE value \<^verbatim>\<open>15 January 2024\<close> comes back unchanged because no
  date pattern matches it. The value does come back unchanged, but not by the fallback:
  the third pattern of \<^verbatim>\<open>date_patterns\<close> is the spelled-month pattern and matches the
  whole value.
\<close>

theorem date_fallback_counterexample:
  "\<not> (normalize_value (Some ''15 January 2024'') FieldType_DATE None = Some ''15 January 2024''
      \<and> first_date_match date_patterns ''15 January 2024'' = None)"
proof -
  have "first_date_match date_patterns ''15 January 2024'' = Some ''15 January 2024''"
    by code_simp
  then show ?thesis by simp
qed

text \<open>
  Claim C9, amended. Normalizing \<^verbatim>\<open>15 January 2024\<close> with type DATE returns it
  unchanged: the ISO pattern and the slash pattern do not match, and the spelled-month
  pattern matches the whole value, which is returned as the match.
\<close>

theorem date_spelled_month:
  "normalize_value (Some ''15 January 2024'') FieldType_DATE strategy = Some ''15 January 2024''
   \<and> re_search True (date_patterns ! 0) ''15 January 2024'' = None
   \<and> re_search True (date_patterns ! 1) ''15 January 2024'' = None
   \<and> re_search True (date_patterns ! 2) ''15 January 2024'' = Some ''15 January 2024''"
proof -
  have m: "first_date_match date_patterns ''15 January 2024'' = Some ''15 January 2024''"
    by code_simp
  have s: "py_strip ''15 January 2024'' = ''15 January 2024''"
    by code_simp
  have n: "normalize_value (Some ''15 January 2024'') FieldType_DATE strategy = Some ''15 January 2024''"
    by (simp add: normalize_value_def s m Let_def)
  have p0: "re_search True (date_patterns ! 0) ''15 January 2024'' = None"
    by code_simp
  have p1: "re_search True (date_patterns ! 1) ''15 January 2024'' = None"
    by code_simp
  have p2: "re_search True (date_patterns ! 2) ''15 January 2024'' = Some ''15 January 2024''"
    by code_simp
  from n p0 p1 p2 show ?thesis by blast
qed

section \<open>Properties of response parsing\<close>

lemma find_field_id:
  "find (\<lambda>f. JStr (field_id f) = j) defs = Some fd \<Longrightarrow> j = JStr (field_id fd) \<and> fd \<in> set defs"
  by (induction defs) (auto split: if_splits)

lemma find_field_id_None:
  "find (\<lambda>f. JStr (field_id f) = j) defs = None \<longleftrightarrow> (\<forall>fd\<in>set defs. JStr (field_id fd) \<noteq> j)"
  by (induction defs) auto

lemma process_item_Some:
  assumes "process_item defs item = Inr (Some r)"
  shows "item_field_id item = Some (JStr (field_id r)) \<and> field_id r \<in> field_id ` set defs"
proof (cases item)
  case (JObj kvs)
  with assms obtain j where j: "dict_get kvs ''field_id'' = Some j"
    by (cases "dict_get kvs ''field_id''") (auto simp: process_item_def has_field_id_def)
  with assms JObj obtain fd where fd: "find (\<lambda>f. JStr (field_id f) = j) defs = Some fd"
    by (cases "find (\<lambda>f. JStr (field_id f) = j) defs") (auto simp: process_item_def has_field_id_def)
  from find_field_id[OF fd] have jj: "j = JStr (field_id fd)" "fd \<in> set defs" by auto
  from assms JObj j fd have "field_id r = field_id fd"
    by (auto simp: process_item_def has_field_id_def Let_def split: sum.splits)
  with jj j JObj show ?thesis by (auto simp: item_field_id_def)
qed (use assms in \<open>auto simp: process_item_def has_field_id_def split: if_splits\<close>)

lemma process_item_None:
  assumes "process_item defs item = Inr None"
  shows "\<forall>s. item_field_id item = Some (JStr s) \<longrightarrow> s \<notin> field_id ` set defs"
proof (cases item)
  case (JObj kvs)
  show ?thesis
  proof (cases "dict_get kvs ''field_id''")
    case None
    with JObj show ?thesis by (simp add: item_field_id_def)
  next
    case (Some j)
    with assms JObj have "find (\<lambda>f. JStr (field_id f) = j) defs = None"
      by (cases "find (\<lambda>f. JStr (field_id f) = j) defs")
         (auto simp: process_item_def has_field_id_def Let_def split: sum.splits)
    then have "\<forall>fd\<in>set defs. JStr (field_id fd) \<noteq> j" by (simp add: find_field_id_None)
    with JObj Some show ?thesis by (auto simp: item_field_id_def)
  qed
qed (simp_all add: item_field_id_def)


lemma known_ids_Cons:
  "known_ids defs (item # items) =
     (case item_field_id item of
        Some (JStr s) \<Rightarrow> if s \<in> field_id ` set defs then [s] else []
      | _ \<Rightarrow> []) @ known_ids defs items"
  by (simp add: known_ids_def)

lemma validate_items_ids:
  "validate_items defs items acc = Inr vf \<Longrightarrow>
   map field_id vf = map field_id acc @ known_ids defs items"
proof (induction items arbitrary: acc)
  case Nil
  then show ?case by (simp add: known_ids_def)
next
  case (Cons item items)
  show ?case
  proof (cases "process_item defs item")
    case (Inl e)
    with Cons.prems show ?thesis by simp
  next
    case (Inr res)
    show ?thesis
    proof (cases res)
      case None
      with Inr Cons.prems have "validate_items defs items acc = Inr vf" by simp
      from Cons.IH[OF this] have ih: "map field_id vf = map field_id acc @ known_ids defs items" .
      from process_item_None Inr None
      have "\<forall>s. item_field_id item = Some (JStr s) \<longrightarrow> s \<notin> field_id ` set defs" by blast
      then have "known_ids defs (item # items) = known_ids defs items"
        by (auto simp: known_ids_Cons split: option.splits json.splits)
      with ih show ?thesis by simp
    next
      case (Some r)
      with Inr Cons.prems have "validate_items defs items (acc @ [r]) = Inr vf" by simp
      from Cons.IH[OF this]
      have ih: "map field_id vf = map field_id (acc @ [r]) @ known_ids defs items" .
      from process_item_Some Inr Some
      have "item_field_id item = Some (JStr (field_id r))" "field_id r \<in> field_id ` set defs"
        by blast+
      then have "known_ids defs (item # items) = field_id r # known_ids defs items"
        by (simp add: known_ids_Cons)
      with ih show ?thesis by simp
    qed
  qed
qed


lemma list_ex_field_id:
  "list_ex (\<lambda>f. field_id f = k) vf \<longleftrightarrow> k \<in> field_id ` set vf"
  by (induction vf) auto

lemma fill_missing_append:
  "\<exists>new. fill_missing defs vf = vf @ new
      \<and> (\<forall>r\<in>set new. \<exists>fd\<in>set defs. r = null_result (field_id fd)
                                   \<and> field_id fd \<notin> field_id ` set vf)"
proof (induction defs arbitrary: vf)
  case Nil
  then show ?case by simp
next
  case (Cons fd defs)
  let ?vf' = "if list_ex (\<lambda>f. field_id f = field_id fd) vf then vf
              else vf @ [null_result (field_id fd)]"
  from Cons.IH[of ?vf'] obtain new where new:
    "fill_missing defs ?vf' = ?vf' @ new"
    "\<forall>r\<in>set new. \<exists>fd'\<in>set defs. r = null_result (field_id fd') \<and> field_id fd' \<notin> field_id ` set ?vf'"
    by blast
  show ?case
  proof (cases "list_ex (\<lambda>f. field_id f = field_id fd) vf")
    case True
    with new show ?thesis by (intro exI[of _ new]) auto
  next
    case False
    then have absent: "field_id fd \<notin> field_id ` set vf" by (simp add: list_ex_field_id)
    from False new(1) have "fill_missing (fd # defs) vf = vf @ (null_result (field_id fd) # new)"
      by simp
    moreover have "\<forall>r\<in>set (null_result (field_id fd) # new).
        \<exists>fd'\<in>set (fd # defs). r = null_result (field_id fd') \<and> field_id fd' \<notin> field_id ` set vf"
      using new(2) False absent by auto
    ultimately show ?thesis by blast
  qed
qed

lemma fill_missing_ids:
  "field_id ` set (fill_missing defs vf) = field_id ` set vf \<union> field_id ` set defs"
proof (induction defs arbitrary: vf)
  case Nil
  then show ?case by simp
next
  case (Cons fd defs)
  show ?case
  proof (cases "list_ex (\<lambda>f. field_id f = field_id fd) vf")
    case True
    then have "field_id fd \<in> field_id ` set vf" by (simp add: list_ex_field_id)
    with True Cons.IH[of vf] show ?thesis by auto
  next
    case False
    with Cons.IH[of "vf @ [null_result (field_id fd)]"] show ?thesis
      by (auto simp: null_result_def)
  qed
qed

lemma fill_missing_distinct:
  "distinct (map field_id vf) \<Longrightarrow> distinct (map field_id (fill_missing defs vf))"
proof (induction defs arbitrary: vf)
  case Nil
  then show ?case by simp
next
  case (Cons fd defs)
  show ?case
  proof (cases "list_ex (\<lambda>f. field_id f = field_id fd) vf")
    case True
    with Cons show ?thesis by simp
  next
    case False
    then have "field_id fd \<notin> field_id ` set vf" by (simp add: list_ex_field_id)
    with Cons.prems have "distinct (map field_id (vf @ [null_result (field_id fd)]))"
      by (auto simp: null_result_def)
    from Cons.IH[OF this] False show ?thesis by simp
  qed
qed

lemma fill_missing_placeholder:
  assumes "fd \<in> set defs" and "field_id fd \<notin> field_id ` set vf"
  shows "null_result (field_id fd) \<in> set (fill_missing defs vf)"
  using assms
proof (induction defs arbitrary: vf)
  case Nil
  then show ?case by simp
next
  case (Cons d defs)
  let ?vf' = "if list_ex (\<lambda>f. field_id f = field_id d) vf then vf
              else vf @ [null_result (field_id d)]"
  from fill_missing_append[of defs ?vf'] obtain new where
    new: "fill_missing defs ?vf' = ?vf' @ new" by blast
  show ?case
  proof (cases "field_id d = field_id fd")
    case True
    with Cons.prems(2) have "\<not> list_ex (\<lambda>f. field_id f = field_id d) vf"
      by (simp add: list_ex_field_id)
    with new True show ?thesis by simp
  next
    case False
    with Cons.prems have "fd \<in> set defs" by auto
    moreover have "field_id fd \<notin> field_id ` set ?vf'"
      using Cons.prems(2) False by (auto simp: null_result_def)
    ultimately have "null_result (field_id fd) \<in> set (fill_missing defs ?vf')"
      by (rule Cons.IH)
    then show ?thesis by simp
  qed
qed

lemma parse_response_Inr:
  assumes "parse_response loads response_text defs = Inr results"
  shows "\<exists>items vf. decoded_items loads response_text = Some items
           \<and> validate_items defs items [] = Inr vf \<and> results = fill_missing defs vf"
  using assms
  by (auto simp: parse_response_def decoded_items_def split: option.splits json.splits sum.splits)

lemma known_ids_subset: "set (known_ids defs items) \<subseteq> field_id ` set defs"
  by (auto simp: known_ids_def split: option.splits json.splits if_splits)

text \<open>
  Claim C1 says that parsing returns exactly one result per field definition for every
  response. It does not for every response: a response without a bracketed span is
  rejected with \<^verbatim>\<open>ExtractionError\<close>, and a response that names the same field in two
  items yields two results for it, since the loop over the items appends one result per
  item.
\<close>

theorem parse_response_cardinality_counterexample:
  \<open>parse_response json_decode ''The document has no such clause.'' [text_field ''party'']
     = Inl (ExtractionError ValueError)
   \<and> parse_response json_decode
       ''[{"field_id": "party", "raw_value": "Acme"}, {"field_id": "party", "raw_value": "Bolt"}]''
       [text_field ''party'']
     = Inr [\<lparr>field_id = ''party'', raw_value = JStr ''Acme'', normalized_value = Some ''Acme'',
              confidence_score = 1 / 2, citations = JArr []\<rparr>,
            \<lparr>field_id = ''party'', raw_value = JStr ''Bolt'', normalized_value = Some ''Bolt'',
              confidence_score = 1 / 2, citations = JArr []\<rparr>]\<close>
  by code_simp

text \<open>
  Claim C1, amended. Let the field definitions have pairwise distinct field ids (templates
  are stored only so) and let parsing return. Then the field ids of the results are
  exactly those of the definitions: results of unknown ids are discarded, and every
  definition that no item of the response names has the null result with confidence 0.
  If moreover no two items of the response name the same definition, there are exactly as
  many results as definitions and no field id occurs twice.
\<close>

theorem parse_response_one_result_per_field:
  assumes "parse_response loads response_text defs = Inr results"
      and "distinct (map field_id defs)"
  shows "\<exists>items. decoded_items loads response_text = Some items
      \<and> field_id ` set results = field_id ` set defs
      \<and> (\<forall>fd\<in>set defs. field_id fd \<notin> set (known_ids defs items)
                           \<longrightarrow> null_result (field_id fd) \<in> set results)
      \<and> (distinct (known_ids defs items)
           \<longrightarrow> length results = length defs \<and> distinct (map field_id results))"
proof -
  from parse_response_Inr[OF assms(1)] obtain items vf where
    items: "decoded_items loads response_text = Some items"
    and vf: "validate_items defs items [] = Inr vf"
    and res: "results = fill_missing defs vf"
    by blast
  from validate_items_ids[OF vf] have ids: "map field_id vf = known_ids defs items" by simp
  then have ids_set: "field_id ` set vf = set (known_ids defs items)"
    by (metis set_map)
  have eq: "field_id ` set results = field_id ` set defs"
    using known_ids_subset[of defs items] ids_set by (auto simp: res fill_missing_ids)
  have ph: "\<forall>fd\<in>set defs. field_id fd \<notin> set (known_ids defs items)
                           \<longrightarrow> null_result (field_id fd) \<in> set results"
    using fill_missing_placeholder[of _ defs vf] ids_set res by blast
  have card: "length results = length defs \<and> distinct (map field_id results)"
    if "distinct (known_ids defs items)"
  proof -
    from that ids have "distinct (map field_id vf)" by simp
    then have d: "distinct (map field_id results)"
      unfolding res by (rule fill_missing_distinct)
    have "length results = length (map field_id results)" by simp
    also have "\<dots> = card (set (map field_id results))" using d by (simp only: distinct_card)
    also have "\<dots> = card (set (map field_id defs))" using eq by simp
    also have "\<dots> = length (map field_id defs)" using assms(2) by (simp only: distinct_card)
    finally show ?thesis using d by simp
  qed
  from items eq ph card show ?thesis by blast
qed

theorem parse_response_one_result_per_field_witness:
  \<open>parse_response json_decode
       ''[{"field_id": "amount", "raw_value": "1,200"}, {"field_id": "other", "raw_value": "x"}]''
       [text_field ''party'', text_field ''amount'']
     = Inr [\<lparr>field_id = ''amount'', raw_value = JStr ''1,200'', normalized_value = Some ''1,200'',
              confidence_score = 1 / 2, citations = JArr []\<rparr>,
            null_result ''party'']
   \<and> distinct (map field_id [text_field ''party'', text_field ''amount''])
   \<and> field_id ` set [\<lparr>field_id = ''amount'', raw_value = JStr ''1,200'',
                        normalized_value = Some ''1,200'', confidence_score = 1 / 2,
                        citations = JArr []\<rparr>,
                       null_result ''party'']
     = field_id ` set [text_field ''party'', text_field ''amount'']\<close>
proof -
  let ?R = \<open>''[{"field_id": "amount", "raw_value": "1,200"}, {"field_id": "other", "raw_value": "x"}]''\<close>
  let ?D = "[text_field ''party'', text_field ''amount'']"
  let ?res = "[\<lparr>field_id = ''amount'', raw_value = JStr ''1,200'', normalized_value = Some ''1,200'',
                 confidence_score = 1 / 2, citations = JArr []\<rparr>,
               null_result ''party'']"
  have run: "parse_response json_decode ?R ?D = Inr ?res"
    by code_simp
  have dist: "distinct (map field_id ?D)"
    by (simp add: text_field_def)
  from parse_response_one_result_per_field[OF run dist]
  have "field_id ` set ?res = field_id ` set ?D" by blast
  with run dist show ?thesis by blast
qed




section \<open>Properties of the chunk merge\<close>

lemma py_max_by_first_max:
  assumes "k < length pre" and "pre ! k = best"
      and "\<forall>j<k. key (pre ! j) < key best"
      and "\<forall>c\<in>set pre. key c \<le> key best"
  shows "\<exists>k'<length (pre @ xs). (pre @ xs) ! k' = py_max_by key best xs
           \<and> (\<forall>j<k'. key ((pre @ xs) ! j) < key (py_max_by key best xs))
           \<and> (\<forall>c\<in>set (pre @ xs). key c \<le> key (py_max_by key best xs))"
  using assms
proof (induction xs arbitrary: pre k best)
  case Nil
  then show ?case by auto
next
  case (Cons x xs)
  show ?case
  proof (cases "key x > key best")
    case True
    have 1: "length pre < length (pre @ [x])" by simp
    have 2: "(pre @ [x]) ! length pre = x" by simp
    have 3: "\<forall>j<length pre. key ((pre @ [x]) ! j) < key x"
    proof (intro allI impI)
      fix j assume j: "j < length pre"
      then have "key (pre ! j) \<le> key best" using Cons.prems(4) by simp
      with True j show "key ((pre @ [x]) ! j) < key x" by (simp add: nth_append)
    qed
    have 4: "\<forall>c\<in>set (pre @ [x]). key c \<le> key x"
      using Cons.prems(4) True by auto
    from Cons.IH[OF 1 2 3 4] True show ?thesis by simp
  next
    case False
    have 1: "k < length (pre @ [x])" using Cons.prems(1) by simp
    have 2: "(pre @ [x]) ! k = best" using Cons.prems(1,2) by (simp add: nth_append)
    have 3: "\<forall>j<k. key ((pre @ [x]) ! j) < key best"
      using Cons.prems(1,3) by (simp add: nth_append)
    have 4: "\<forall>c\<in>set (pre @ [x]). key c \<le> key best"
      using Cons.prems(4) False by auto
    from Cons.IH[OF 1 2 3 4] False show ?thesis by simp
  qed
qed

lemma py_max_by_spec:
  "\<exists>k<length (x # xs). (x # xs) ! k = py_max_by key x xs
      \<and> (\<forall>j<k. key ((x # xs) ! j) < key (py_max_by key x xs))
      \<and> (\<forall>c\<in>set (x # xs). key c \<le> key (py_max_by key x xs))"
  using py_max_by_first_max[of 0 "[x]" x key xs] by simp

text \<open>
  Claim C2 takes as candidates the results whose raw value is not null. The code keeps a
  result only when its raw value is true in the sense of Python, so a result whose raw
  value is the empty string is no candidate: with one chunk that holds such a result the
  code returns the null result and the specified merge returns the result.
\<close>

theorem merge_chunk_results_counterexample:
  "merge_chunk_results
     [[\<lparr>field_id = ''party'', raw_value = JStr '''', normalized_value = None,
        confidence_score = 9 / 10, citations = JArr []\<rparr>]]
     [text_field ''party'']
   = [null_result ''party'']
   \<and> merge_as_specified
     [[\<lparr>field_id = ''party'', raw_value = JStr '''', normalized_value = None,
        confidence_score = 9 / 10, citations = JArr []\<rparr>]]
     [text_field ''party'']
   = [\<lparr>field_id = ''party'', raw_value = JStr '''', normalized_value = None,
       confidence_score = 9 / 10, citations = JArr []\<rparr>]"
  by code_simp

text \<open>
  Claim C2, amended. The merge returns one result per field definition, in their order.
  The candidates of a field are, chunk by chunk, the first result of the chunk for that
  field, provided its raw value is neither null nor empty (true in the sense of Python).
  Without a candidate the result is the null result; otherwise it is the first candidate
  of maximal confidence: every candidate before it has a smaller confidence and none has
  a greater one.
\<close>

theorem merge_chunk_results_spec:
  "length (merge_chunk_results chunk_results defs) = length defs
   \<and> (\<forall>i<length defs.
        (field_extractions chunk_results (field_id (defs ! i)) = []
           \<longrightarrow> merge_chunk_results chunk_results defs ! i = null_result (field_id (defs ! i)))
      \<and> (field_extractions chunk_results (field_id (defs ! i)) \<noteq> []
           \<longrightarrow> (\<exists>k<length (field_extractions chunk_results (field_id (defs ! i))).
                  field_extractions chunk_results (field_id (defs ! i)) ! k
                    = merge_chunk_results chunk_results defs ! i
                  \<and> (\<forall>j<k. confidence_score (field_extractions chunk_results (field_id (defs ! i)) ! j)
                             < confidence_score (merge_chunk_results chunk_results defs ! i))
                  \<and> (\<forall>c\<in>set (field_extractions chunk_results (field_id (defs ! i))).
                        confidence_score c
                          \<le> confidence_score (merge_chunk_results chunk_results defs ! i)))))
   \<and> (\<forall>fid c. c \<in> set (field_extractions chunk_results fid) \<longleftrightarrow>
        (\<exists>chunk\<in>set chunk_results. find (\<lambda>f. field_id f = fid) chunk = Some c
                                    \<and> py_truthy (raw_value c)))"
proof -
  have len: "length (merge_chunk_results chunk_results defs) = length defs"
    by (simp add: merge_chunk_results_def)
  have sel: "(field_extractions chunk_results (field_id (defs ! i)) = []
           \<longrightarrow> merge_chunk_results chunk_results defs ! i = null_result (field_id (defs ! i)))
      \<and> (field_extractions chunk_results (field_id (defs ! i)) \<noteq> []
           \<longrightarrow> (\<exists>k<length (field_extractions chunk_results (field_id (defs ! i))).
                  field_extractions chunk_results (field_id (defs ! i)) ! k
                    = merge_chunk_results chunk_results defs ! i
                  \<and> (\<forall>j<k. confidence_score (field_extractions chunk_results (field_id (defs ! i)) ! j)
                             < confidence_score (merge_chunk_results chunk_results defs ! i))
                  \<and> (\<forall>c\<in>set (field_extractions chunk_results (field_id (defs ! i))).
                        confidence_score c
                          \<le> confidence_score (merge_chunk_results chunk_results defs ! i))))"
    if i: "i < length defs" for i
  proof -
    let ?c = "field_extractions chunk_results (field_id (defs ! i))"
    have m: "merge_chunk_results chunk_results defs ! i = merge_field chunk_results (defs ! i)"
      using i by (simp add: merge_chunk_results_def)
    show ?thesis
    proof (cases ?c)
      case Nil
      then show ?thesis by (simp add: m merge_field_def)
    next
      case (Cons x xs)
      then have "merge_field chunk_results (defs ! i) = py_max_by confidence_score x xs"
        by (simp add: merge_field_def)
      with py_max_by_spec[of x xs confidence_score] Cons m show ?thesis by simp
    qed
  qed
  have cands: "c \<in> set (field_extractions chunk_results fid) \<longleftrightarrow>
        (\<exists>chunk\<in>set chunk_results. find (\<lambda>f. field_id f = fid) chunk = Some c
                                    \<and> py_truthy (raw_value c))" for fid c
  proof
    assume "c \<in> set (field_extractions chunk_results fid)"
    then obtain chunk where "chunk \<in> set chunk_results"
      and "c \<in> set (case find (\<lambda>f. field_id f = fid) chunk of
                        None \<Rightarrow> []
                      | Some field_data \<Rightarrow>
                          if py_truthy (raw_value field_data) then [field_data] else [])"
      by (auto simp: field_extractions_def)
    then show "\<exists>chunk\<in>set chunk_results. find (\<lambda>f. field_id f = fid) chunk = Some c
                                    \<and> py_truthy (raw_value c)"
      by (cases "find (\<lambda>f. field_id f = fid) chunk") (auto split: if_splits)
  next
    assume "\<exists>chunk\<in>set chunk_results. find (\<lambda>f. field_id f = fid) chunk = Some c
                                    \<and> py_truthy (raw_value c)"
    then obtain chunk where "chunk \<in> set chunk_results"
      and "find (\<lambda>f. field_id f = fid) chunk = Some c" and "py_truthy (raw_value c)"
      by blast
    define g where "g = (\<lambda>chunk_result :: field_result list.
        case find (\<lambda>f. field_id f = fid) chunk_result of
          None \<Rightarrow> []
        | Some field_data \<Rightarrow> if py_truthy (raw_value field_data) then [field_data] else [])"
    have "c \<in> set (g chunk)"
      using \<open>find (\<lambda>f. field_id f = fid) chunk = Some c\<close> \<open>py_truthy (raw_value c)\<close>
      by (simp add: g_def)
    then have "c \<in> set (concat (map g chunk_results))"
      using \<open>chunk \<in> set chunk_results\<close> by auto
    then show "c \<in> set (field_extractions chunk_results fid)"
      by (simp add: field_extractions_def g_def)
  qed
  from len sel cands show ?thesis by blast
qed

theorem merge_chunk_results_spec_witness:
  "merge_chunk_results
     [[\<lparr>field_id = ''party'', raw_value = JStr ''Acme'', normalized_value = Some ''Acme'',
        confidence_score = 1 / 2, citations = JArr []\<rparr>],
      [\<lparr>field_id = ''party'', raw_value = JStr ''Bolt'', normalized_value = Some ''Bolt'',
        confidence_score = 1 / 2, citations = JArr []\<rparr>]]
     [text_field ''party'', text_field ''amount'']
   = [\<lparr>field_id = ''party'', raw_value = JStr ''Acme'', normalized_value = Some ''Acme'',
       confidence_score = 1 / 2, citations = JArr []\<rparr>,
      null_result ''amount'']
   \<and> length (merge_chunk_results
     [[\<lparr>field_id = ''party'', raw_value = JStr ''Acme'', normalized_value = Some ''Acme'',
        confidence_score = 1 / 2, citations = JArr []\<rparr>],
      [\<lparr>field_id = ''party'', raw_value = JStr ''Bolt'', normalized_value = Some ''Bolt'',
        confidence_score = 1 / 2, citations = JArr []\<rparr>]]
     [text_field ''party'', text_field ''amount'']) = 2"
proof -
  let ?X = "[[\<lparr>field_id = ''party'', raw_value = JStr ''Acme'', normalized_value = Some ''Acme'',
        confidence_score = 1 / 2, citations = JArr []\<rparr>],
      [\<lparr>field_id = ''party'', raw_value = JStr ''Bolt'', normalized_value = Some ''Bolt'',
        confidence_score = 1 / 2, citations = JArr []\<rparr>]]"
  let ?D = "[text_field ''party'', text_field ''amount'']"
  have run: "merge_chunk_results ?X ?D
     = [\<lparr>field_id = ''party'', raw_value = JStr ''Acme'', normalized_value = Some ''Acme'',
         confidence_score = 1 / 2, citations = JArr []\<rparr>,
        null_result ''amount'']"
    by code_simp
  from merge_chunk_results_spec[of ?X ?D]
  have "length (merge_chunk_results ?X ?D) = length ?D" by blast
  with run show ?thesis by simp
qed

section \<open>What the model is shown\<close>

lemma py_slice_prefix: "0 \<le> k \<Longrightarrow> py_slice xs 0 k = take (nat k) xs"
  using py_slice_nonneg[of 0 k xs] by simp

lemma build_extraction_prompt_take:
  "build_extraction_prompt env document_text defs
     = prompt_head env defs @ take 30000 document_text @ prompt_tail env defs"
  by (simp add: build_extraction_prompt_def py_slice_prefix)

lemma build_extraction_prompt_truncated:
  "build_extraction_prompt env (take 30000 document_text) defs
     = build_extraction_prompt env document_text defs"
  by (simp add: build_extraction_prompt_take)

lemma extract_single_truncated:
  "extract_single env s (take 30000 document_text) defs = extract_single env s document_text defs"
  by (simp add: extract_single_def build_extraction_prompt_truncated)

lemma extract_chunks_truncated:
  "extract_chunks env s (map (take 30000) chunks) defs acc = extract_chunks env s chunks defs acc"
  by (induction chunks arbitrary: s acc) (auto simp: extract_single_truncated split: prod.splits sum.splits)

text \<open>
  Claim C10. The prompt is a text that depends on the field definitions only, then the
  first 30000 characters of the document text, then another text that depends on the field
  definitions only. So a single call and the loop over the chunks give the same result on
  the text, or on the chunks, cut after 30000 characters. With the default chunk size of
  50000 a text of at most 50000 characters goes through a single call, a longer one is cut
  into chunks of at most 50000 characters, the first of exactly 50000: of each chunk at
  most 20000 characters, and of the first one exactly 20000, are in no prompt.
\<close>

theorem prompt_holds_first_30000:
  "build_extraction_prompt env document_text defs
     = prompt_head env defs @ take 30000 document_text @ prompt_tail env defs
   \<and> extract_single env s document_text defs = extract_single env s (take 30000 document_text) defs
   \<and> extract_chunks env s chunks defs acc = extract_chunks env s (map (take 30000) chunks) defs acc
   \<and> extract env s document_text defs 50000
     = (if length document_text > 50000
        then (case create_chunks document_text 50000 500 of
                None \<Rightarrow> None
              | Some chunks' \<Rightarrow>
                  Some (wrap_error (merged defs
                          (extract_chunks env s (map (take 30000) chunks') defs []))))
        else Some (wrap_error (extract_single env s (take 30000 document_text) defs)))
   \<and> (\<exists>chunks'. create_chunks document_text 50000 500 = Some chunks'
         \<and> (\<forall>c\<in>set chunks'. length (drop 30000 c) \<le> 20000)
         \<and> (length document_text > 50000 \<longrightarrow> length (drop 30000 (hd chunks')) = 20000))"
proof -
  have ex: "extract env s document_text defs 50000
     = (if length document_text > 50000
        then (case create_chunks document_text 50000 500 of
                None \<Rightarrow> None
              | Some chunks' \<Rightarrow>
                  Some (wrap_error (merged defs
                          (extract_chunks env s (map (take 30000) chunks') defs []))))
        else Some (wrap_error (extract_single env s (take 30000 document_text) defs)))"
    by (simp add: extract_def extract_chunked_def extract_single_truncated
                  extract_chunks_truncated split: option.splits)
  from create_chunks_loop_correct[of 500 50000 0 document_text "[]"]
  obtain new where new:
    "create_chunks_loop document_text 50000 500 0 [] = Some new"
    "new = [] \<longleftrightarrow> \<not> 0 < int (length document_text)"
    "new \<noteq> [] \<longrightarrow> hd new = take (nat 50000) (drop (nat 0) document_text)"
    "\<forall>c\<in>set new. length c \<le> nat 50000 \<and> (\<exists>a. c = take (nat 50000) (drop a document_text))"
    by auto
  have small: "\<forall>c\<in>set new. length (drop 30000 c) \<le> 20000"
    using new(4) by auto
  have first: "length (drop 30000 (hd new)) = 20000" if "length document_text > 50000"
  proof -
    from that new(2) have "new \<noteq> []" by auto
    with new(3) have "hd new = take 50000 document_text" by simp
    with that show ?thesis by simp
  qed
  from new(1) small first
  have ch: "\<exists>chunks'. create_chunks document_text 50000 500 = Some chunks'
         \<and> (\<forall>c\<in>set chunks'. length (drop 30000 c) \<le> 20000)
         \<and> (length document_text > 50000 \<longrightarrow> length (drop 30000 (hd chunks')) = 20000)"
    by (auto simp: create_chunks_def)
  from build_extraction_prompt_take[of env document_text defs]
       extract_single_truncated[of env s document_text defs]
       extract_chunks_truncated[of env s chunks defs acc] ex ch
  show ?thesis by simp
qed

theorem prompt_holds_first_30000_witness:
  "create_chunks ''Lease between Acme and Bolt'' 50000 500 = Some [''Lease between Acme and Bolt'']
   \<and> length (drop 30000 ''Lease between Acme and Bolt'') \<le> 20000"
proof -
  have run: "create_chunks ''Lease between Acme and Bolt'' 50000 500 = Some [''Lease between Acme and Bolt'']"
    unfolding create_chunks_def
    by (subst create_chunks_loop.simps) (simp add: py_slice_def py_slice_index_def)
  from prompt_holds_first_30000[where document_text = "''Lease between Acme and Bolt''",
         THEN conjunct2, THEN conjunct2, THEN conjunct2, THEN conjunct2]
  obtain chunks' where "create_chunks ''Lease between Acme and Bolt'' 50000 500 = Some chunks'"
    and "\<forall>c\<in>set chunks'. length (drop 30000 c) \<le> 20000"
    by blast
  with run show ?thesis by simp
qed

end
